theory Spec2Isabelle
  imports Complex_Main
begin

section \<open>Numbers\<close>

text \<open>
  JavaScript numbers are modelled as mathematical reals: the rounding error of the IEEE
  doubles is not represented. Every division of the source that is protected by a guard
  keeps its guard in the model. Where the source can produce or return a non-finite value
  (\<^verbatim>\<open>Infinity\<close>, \<^verbatim>\<open>NaN\<close>) the extended type \<open>jsnum\<close> below is used; its operations
  overflow as the doubles do.
\<close>

definition Math_round :: "real \<Rightarrow> real" where
  \<comment> \<open>\<^verbatim>\<open>Math.round\<close>: nearest integer, ties towards plus infinity.\<close>
  "Math_round x = of_int \<lfloor>x + 1 / 2\<rfloor>"

definition Math_floor :: "real \<Rightarrow> int" where
  "Math_floor x = \<lfloor>x\<rfloor>"

datatype jsnum = Fin real | Infinity | NegInfinity | NaN

text \<open>
  The arithmetic of \<open>jsnum\<close> follows IEEE 754 on the extended reals. A result whose exact
  value reaches \<open>overflow_bound\<close> in magnitude (the midpoint between the largest double and
  2 to the 1024, from which rounding to nearest gives an infinity) is the infinity of its
  sign. The model has a single zero: a division of a non-zero number by zero gives the
  infinity with the sign of the numerator.
\<close>

definition overflow_bound :: real where
  "overflow_bound = 2 ^ 1024 - 2 ^ 970"

definition overflows :: "real \<Rightarrow> bool" where
  "overflows x = (overflow_bound \<le> \<bar>x\<bar>)"

definition js_fin :: "real \<Rightarrow> jsnum" where
  \<comment> \<open>the double for an operation whose exact result is \<open>x\<close>\<close>
  "js_fin x = (if overflow_bound \<le> x then Infinity
               else if x \<le> - overflow_bound then NegInfinity
               else Fin x)"

fun js_neg :: "jsnum \<Rightarrow> jsnum" where
  "js_neg (Fin a) = Fin (- a)"
| "js_neg Infinity = NegInfinity"
| "js_neg NegInfinity = Infinity"
| "js_neg NaN = NaN"

fun js_add :: "jsnum \<Rightarrow> jsnum \<Rightarrow> jsnum" where
  "js_add (Fin a) (Fin b) = js_fin (a + b)"
| "js_add (Fin a) Infinity = Infinity"
| "js_add (Fin a) NegInfinity = NegInfinity"
| "js_add Infinity (Fin b) = Infinity"
| "js_add Infinity Infinity = Infinity"
| "js_add NegInfinity (Fin b) = NegInfinity"
| "js_add NegInfinity NegInfinity = NegInfinity"
| "js_add _ _ = NaN"

definition js_sub :: "jsnum \<Rightarrow> jsnum \<Rightarrow> jsnum" where
  "js_sub a b = js_add a (js_neg b)"

fun js_abs :: "jsnum \<Rightarrow> jsnum" where
  "js_abs (Fin a) = Fin \<bar>a\<bar>"
| "js_abs Infinity = Infinity"
| "js_abs NegInfinity = Infinity"
| "js_abs NaN = NaN"

fun js_div :: "jsnum \<Rightarrow> jsnum \<Rightarrow> jsnum" where
  "js_div (Fin a) (Fin b) =
     (if b = 0 then (if a = 0 then NaN else if 0 < a then Infinity else NegInfinity)
      else js_fin (a / b))"
| "js_div (Fin a) Infinity = Fin 0"
| "js_div (Fin a) NegInfinity = Fin 0"
| "js_div Infinity (Fin b) = (if b < 0 then NegInfinity else Infinity)"
| "js_div NegInfinity (Fin b) = (if b < 0 then Infinity else NegInfinity)"
| "js_div _ _ = NaN"

fun js_less :: "jsnum \<Rightarrow> jsnum \<Rightarrow> bool" where
  \<comment> \<open>the comparison \<^verbatim>\<open>a < b\<close>: false as soon as one side is \<^verbatim>\<open>NaN\<close>\<close>
  "js_less (Fin a) (Fin b) = (a < b)"
| "js_less (Fin a) Infinity = True"
| "js_less NegInfinity (Fin b) = True"
| "js_less NegInfinity Infinity = True"
| "js_less _ _ = False"

definition js_min :: "jsnum \<Rightarrow> jsnum \<Rightarrow> jsnum" where
  \<comment> \<open>\<^verbatim>\<open>Math.min(a, b)\<close>\<close>
  "js_min a b = (if a = NaN \<or> b = NaN then NaN else if js_less b a then b else a)"

definition js_max :: "jsnum \<Rightarrow> jsnum \<Rightarrow> jsnum" where
  \<comment> \<open>\<^verbatim>\<open>Math.max(a, b)\<close>\<close>
  "js_max a b = (if a = NaN \<or> b = NaN then NaN else if js_less a b then b else a)"

definition Math_min :: "real list \<Rightarrow> real" where
  \<comment> \<open>\<^verbatim>\<open>Math.min(...data)\<close>; only called on a non-empty array.\<close>
  "Math_min data = Min (set data)"

definition Math_max :: "real list \<Rightarrow> real" where
  "Math_max data = Max (set data)"

section \<open>Actions and the overflow resolvers (utils.js)\<close>

record action =
  at' :: real
  pos :: real

definition normalize_data :: "real list \<Rightarrow> real list" where
  "normalize_data data =
     (if data = [] then []
      else
        let fmin = Math_min data; fmax = Math_max data
        in if fmax = fmin then map (\<lambda>_. 1 / 2) data
           else map (\<lambda>v. (v - fmin) / (fmax - fmin)) data)"

definition default_peak :: "real \<Rightarrow> real \<Rightarrow> action list" where
  "default_peak p a = [\<lparr>at' = a, pos = min (max 0 p) 100\<rparr>]"

definition int_at :: "real \<Rightarrow> real \<Rightarrow> real \<Rightarrow> real \<Rightarrow> real \<Rightarrow> real" where
  "int_at p a last_pos last_at limit =
     (let before_ratio = \<bar>last_pos - limit\<bar>;
          after_ratio = \<bar>p - limit\<bar>
      in if after_ratio + before_ratio = 0 then a
         else (before_ratio * a + after_ratio * last_at) / (after_ratio + before_ratio))"

definition emit :: "real \<Rightarrow> real \<Rightarrow> action" where
  \<comment> \<open>the local helper \<^verbatim>\<open>action(p, a)\<close> of the bounce and fold resolvers, as the pushed value\<close>
  "emit p a = \<lparr>at' = a, pos = Math_round p\<rparr>"

definition create_peak_bounce :: "real \<Rightarrow> real \<Rightarrow> real \<Rightarrow> real \<Rightarrow> action list" where
  "create_peak_bounce p a last_pos last_at =
     (if last_pos < 0 then [emit 0 (int_at p a last_pos last_at 0)]
      else if last_pos > 100 then [emit 100 (int_at p a last_pos last_at 100)]
      else [])
     @
     (if p > 100 then [emit 100 (int_at p a last_pos last_at 100), emit (200 - p) a]
      else if p < 0 then [emit 0 (int_at p a last_pos last_at 0), emit (- p) a]
      else [emit p a])"

definition create_peak_fold :: "real \<Rightarrow> real \<Rightarrow> real \<Rightarrow> real \<Rightarrow> action list" where
  "create_peak_fold p a last_pos last_at =
     (let int_att = (last_at + a) / 2;
          travel = \<bar>last_pos - p\<bar> / 2
      in
        (if last_pos < 0 then [emit (last_pos + travel) int_att]
         else if last_pos > 100 then [emit (last_pos - travel) int_att]
         else [])
        @
        (if p < 0 then [emit (last_pos - travel) int_att, emit last_pos a]
         else if p > 100 then [emit (last_pos + travel) int_att, emit last_pos a]
         else [emit p a]))"

type_synonym peak = "real \<Rightarrow> real \<Rightarrow> real \<Rightarrow> real \<Rightarrow> action list"

definition peaks :: "int \<Rightarrow> peak option" where
  \<comment> \<open>the table \<^verbatim>\<open>[default_peak, create_peak_bounce, create_peak_fold]\<close>; any other index
      reads \<^verbatim>\<open>undefined\<close>\<close>
  "peaks i =
     (if i = 0 then Some (\<lambda>p a last_pos last_at. default_peak p a)
      else if i = 1 then Some create_peak_bounce
      else if i = 2 then Some create_peak_fold
      else None)"

section \<open>The synthesizer\<close>

record audio_features =
  data_at :: real
  beats :: "real list option"
  pitch :: "real list option"
  energy :: "real list option"

record processed_data = audio_features +
  offsets :: "real list option"
  energy_to_pos :: "real list option"

record barrier_state =
  last_at :: real
  last_pos :: real
  actions :: "action list"

definition barrier_init :: "real \<Rightarrow> barrier_state" where
  "barrier_init start_time = \<lparr>last_at = start_time, last_pos = 50, actions = []\<rparr>"

definition barrier_step :: "real \<Rightarrow> real \<times> real \<times> real \<Rightarrow> barrier_state \<Rightarrow> barrier_state option" where
  \<comment> \<open>one iteration of the loop body; \<open>None\<close> is the TypeError of calling an undefined table entry\<close>
  "barrier_step overflow frame s =
     (case frame of (unoffset_pos, a, offset) \<Rightarrow>
       (case peaks (Math_floor overflow) of
          None \<Rightarrow> None
        | Some peak \<Rightarrow>
            (let intermediate_at = (a + last_at s) / 2;
                 p = unoffset_pos + offset;
                 up = peak p intermediate_at (last_pos s) (last_at s);
                 p' = unoffset_pos * (- 1) + offset;
                 down = peak p' a p intermediate_at
             in Some \<lparr>last_at = a, last_pos = p', actions = (actions s @ up) @ down\<rparr>)))"

fun barrier_loop :: "real \<Rightarrow> (real \<times> real \<times> real) list \<Rightarrow> barrier_state \<Rightarrow> barrier_state option" where
  "barrier_loop overflow [] s = Some s"
| "barrier_loop overflow (frame # frames) s =
     (case barrier_step overflow frame s of
        None \<Rightarrow> None
      | Some s' \<Rightarrow> barrier_loop overflow frames s')"

definition barrier_frames :: "real list \<Rightarrow> real list \<Rightarrow> real list \<Rightarrow> (real \<times> real \<times> real) list" where
  "barrier_frames e2p bs offs =
     (let num_frames = min (length e2p) (min (length bs) (length offs))
      in map (\<lambda>i. (e2p ! i, bs ! i, offs ! i)) [0..<num_frames])"

definition create_actions_barrier :: "('a processed_data_scheme) \<Rightarrow> real \<Rightarrow> real \<Rightarrow> action list option" where
  "create_actions_barrier data start_time overflow =
     (case (energy_to_pos data, beats data, offsets data) of
        (Some e2p, Some bs, Some offs) \<Rightarrow>
          map_option actions (barrier_loop overflow (barrier_frames e2p bs offs) (barrier_init start_time))
      | _ \<Rightarrow> Some [])"

definition create_offsets :: "real list \<Rightarrow> real list \<Rightarrow> real \<Rightarrow> real \<Rightarrow> real \<Rightarrow> real list" where
  "create_offsets normalized_pitch normalized_energy pitch_range amplitude_centering center_offset =
     (let pitch_bias = (100 - pitch_range) / 2;
          sliced = take (length normalized_energy) normalized_pitch
      in map (\<lambda>i. sliced ! i * pitch_range + pitch_bias
                   + amplitude_centering * normalized_energy ! i + center_offset)
             [0..<length sliced])"

definition process_data :: "audio_features \<Rightarrow> real list \<Rightarrow> real list \<Rightarrow> real \<Rightarrow> real \<Rightarrow> real \<Rightarrow> real \<Rightarrow> processed_data" where
  "process_data data p e energy_multiplier pitch_range amplitude_centering center_offset =
     (let normalized_pitch = normalize_data p;
          normalized_energy = normalize_data e
      in audio_features.extend data
           \<lparr>offsets = Some (create_offsets normalized_pitch normalized_energy pitch_range
                              amplitude_centering center_offset),
            energy_to_pos = Some (map (\<lambda>e. e * energy_multiplier * 50) normalized_energy)\<rparr>)"

definition create_actions :: "audio_features \<Rightarrow> real \<Rightarrow> real \<Rightarrow> real \<Rightarrow> real \<Rightarrow> real \<Rightarrow> action list option" where
  \<comment> \<open>the last line of the source passes \<open>overflow\<close> in the position of \<open>start_time\<close>; the
      \<open>overflow\<close> parameter of the barrier takes its default 0\<close>
  "create_actions data energy_multiplier pitch_range overflow amplitude_centering center_offset =
     (case (pitch data, energy data) of
        (Some p, Some e) \<Rightarrow>
          create_actions_barrier
            (process_data data p e energy_multiplier pitch_range amplitude_centering center_offset)
            overflow 0
      | _ \<Rightarrow> Some [])"

section \<open>Speed\<close>

definition u_speed :: "action \<Rightarrow> action \<Rightarrow> real \<Rightarrow> jsnum" where
  \<comment> \<open>the function \<^verbatim>\<open>_speed\<close>; the fields of the two actions are finite doubles\<close>
  "u_speed A B smax =
     (if js_sub (Fin (at' B)) (Fin (at' A)) = Fin 0 then Fin 0
      else
        let v = js_div (js_abs (js_sub (Fin (pos B)) (Fin (pos A))))
                       (js_sub (Fin (at' B)) (Fin (at' A)))
        in js_div v (Fin smax))"

definition speed :: "action \<Rightarrow> action \<Rightarrow> real \<Rightarrow> jsnum" where
  "speed A B smax = js_max (Fin 0) (js_min (u_speed A B smax) (Fin 1))"

section \<open>Export\<close>





section \<open>Segmentation (audioProcessor.worker.js)\<close>

function splits_loop :: "real list \<Rightarrow> real list \<Rightarrow> nat \<Rightarrow> nat \<Rightarrow> int list \<Rightarrow> int list \<times> nat" where
  \<comment> \<open>the loop over \<open>k\<close> with its two variables \<open>last\<close> and \<open>splits\<close>; it returns both\<close>
  "splits_loop frames bts k last' splits =
     (if k < length frames then
        (if last' \<ge> length bts then (splits, last')
         else if frames ! k > bts ! last' then
           splits_loop frames bts (k + 1) (last' + 1)
             (if last' > 0 then splits @ [int k] else splits)
         else splits_loop frames bts (k + 1) last' splits)
      else (splits, last'))"
  by pat_completeness auto
termination
  by (relation "measure (\<lambda>(frames, bts, k, last', splits). length frames - k)") auto

definition compute_splits :: "real list \<Rightarrow> real list \<Rightarrow> int list" where
  "compute_splits frames bts = fst (splits_loop frames bts 0 0 [0]) @ [- 1]"

definition consumed_beats :: "real list \<Rightarrow> real list \<Rightarrow> nat" where
  \<comment> \<open>the value of \<open>last\<close> when the loop ends\<close>
  "consumed_beats frames bts = snd (splits_loop frames bts 0 0 [0])"

definition segment_bounds :: "int list \<Rightarrow> nat \<Rightarrow> (int \<times> int) list" where
  \<comment> \<open>\<open>start\<close> and \<open>end\<close> of each iteration of the loop over \<open>splits\<close>; \<open>n\<close> is the length of
      the truncated arrays\<close>
  "segment_bounds splits n =
     map (\<lambda>i. (splits ! (i - 1), if splits ! i = - 1 then int n else splits ! i))
         [1..<length splits]"

definition segment_sums :: "int list \<Rightarrow> real list \<Rightarrow> real list" where
  \<comment> \<open>\<open>fpitch\<close> from the truncated pitches, \<open>frms\<close> from the truncated RMS values\<close>
  "segment_sums splits xs =
     map (\<lambda>(start, end'). sum_list (map (\<lambda>j. xs ! nat j) [start..end' - 1]))
         (segment_bounds splits (length xs))"

fun beat_crossings :: "real list \<Rightarrow> real list \<Rightarrow> nat \<Rightarrow> nat list" where
  \<comment> \<open>Following the words of the specification: frame-times and beat-times are walked in
      parallel, and the index of a frame is recorded each time its time exceeds the next
      unconsumed beat-time, which consumes that beat. \<open>k\<close> is the index of the first frame
      of the list.\<close>
  "beat_crossings [] bts k = []"
| "beat_crossings (f # fs) [] k = []"
| "beat_crossings (f # fs) (b # bs) k =
     (if f > b then k # beat_crossings fs bs (Suc k)
      else beat_crossings fs (b # bs) (Suc k))"

definition opened_boundaries :: "real list \<Rightarrow> real list \<Rightarrow> int list" where
  \<comment> \<open>the boundaries pushed inside the loop: \<open>splits\<close> without its initial 0 and its final -1\<close>
  "opened_boundaries frames bts = butlast (tl (compute_splits frames bts))"

section \<open>Auto-tuning (autoval.js)\<close>

text \<open>
  The minimiser \<^verbatim>\<open>nelderMead\<close> comes from the third-party package \<^verbatim>\<open>fmin\<close> and is a
  parameter of the model. An objective is a function of the single coordinate of the point
  (\<open>None\<close>: the objective throws). The minimiser receives the objective (\<open>None\<close>: the
  value \<^verbatim>\<open>undefined\<close> read from the table of optimizers) and the initial coordinate, and
  returns the coordinate \<^verbatim>\<open>x[0]\<close> of its result, or \<open>None\<close> when it throws.
\<close>

type_synonym objective = "real \<Rightarrow> jsnum option"

type_synonym minimizer = "objective option \<Rightarrow> real \<Rightarrow> real option"

definition cmean :: "audio_features \<Rightarrow> objective" where
  "cmean data pitch_range =
     (if pitch_range = 0 then Some Infinity
      else
        (case create_actions data 0 pitch_range 0 0 0 of
           None \<Rightarrow> None
         | Some result \<Rightarrow>
             (let Y = map pos result
              in if length Y = 0 then Some Infinity
                 else Some (Fin (fold (\<lambda>val sum. sum + val) Y 0 / real (length Y))))))"

definition pdst :: "audio_features \<Rightarrow> real \<Rightarrow> objective" where
  "pdst data tpi p =
     (case cmean data p of
        None \<Rightarrow> None
      | Some a \<Rightarrow> Some (js_abs (js_sub a (Fin tpi))))"

definition speeds_of :: "action list \<Rightarrow> real \<Rightarrow> jsnum list" where
  \<comment> \<open>the loop filling \<open>speeds\<close>\<close>
  "speeds_of result smax =
     map (\<lambda>i. speed (result ! i) (result ! (i + 1)) smax) [0..<length result - 1]"

definition js_sum :: "jsnum list \<Rightarrow> jsnum" where
  \<comment> \<open>\<^verbatim>\<open>reduce((sum, val) => sum + val, 0)\<close>\<close>
  "js_sum xs = fold (\<lambda>val sum. js_add sum val) xs (Fin 0)"

definition cemean :: "audio_features \<Rightarrow> real \<Rightarrow> real \<Rightarrow> objective" where
  "cemean data pres target_speed energy_multiplier =
     (if energy_multiplier < 0 then Some Infinity
      else
        (case create_actions data energy_multiplier pres 0 0 0 of
           None \<Rightarrow> None
         | Some result \<Rightarrow>
             if length result < 2 then Some Infinity
             else
               (let speeds = speeds_of result 1
                in if length speeds = 0 then Some Infinity
                   else
                     (let averageSpeed = js_div (js_sum speeds) (Fin (real (length speeds)))
                      in Some (js_abs (js_sub averageSpeed (Fin target_speed)))))))"

definition cemeanv2 :: "audio_features \<Rightarrow> real \<Rightarrow> real \<Rightarrow> real \<Rightarrow> objective" where
  "cemeanv2 data pres target_speed v2above energy_multiplier =
     (if energy_multiplier < 0 then Some Infinity
      else
        (case create_actions data energy_multiplier pres 0 0 0 of
           None \<Rightarrow> None
         | Some result \<Rightarrow>
             if length result < 2 then Some Infinity
             else
               (let speeds = speeds_of result 400
                in if length speeds = 0 then Some Infinity
                   else
                     (let aboveTarget = length (filter (\<lambda>s. js_less (Fin target_speed) s) speeds);
                          percentageAboveTarget = real aboveTarget / real (length speeds)
                      in Some (Fin \<bar>percentageAboveTarget - v2above\<bar>)))))"

definition celen :: "audio_features \<Rightarrow> real \<Rightarrow> real \<Rightarrow> objective" where
  "celen data pres v2above energy_multiplier =
     (if energy_multiplier < 0 then Some Infinity
      else
        (case create_actions data energy_multiplier pres 0 0 0 of
           None \<Rightarrow> None
         | Some result \<Rightarrow>
             if length result < 2 then Some Infinity
             else
               (let distances = map (\<lambda>i. \<bar>pos (result ! i) - pos (result ! (i + 1))\<bar>)
                                    [0..<length result - 1]
                in if length distances = 0 then Some Infinity
                   else
                     (let actualPercentage =
                            fold (\<lambda>val sum. sum + val) distances 0 / (real (length distances) * 100)
                      in Some (Fin \<bar>actualPercentage - v2above\<bar>)))))"

definition optimizers :: "audio_features \<Rightarrow> real \<Rightarrow> real \<Rightarrow> real \<Rightarrow> real \<Rightarrow> objective option" where
  \<comment> \<open>\<^verbatim>\<open>[cemean, cemeanv2, celen][opt]\<close>\<close>
  "optimizers data pres target_speed v2above opt =
     (if opt = 0 then Some (cemean data pres target_speed)
      else if opt = 1 then Some (cemeanv2 data pres target_speed v2above)
      else if opt = 2 then Some (celen data pres v2above)
      else None)"

definition autoval :: "minimizer \<Rightarrow> audio_features option \<Rightarrow> real \<Rightarrow> real \<Rightarrow> real \<Rightarrow> real \<Rightarrow> real \<times> real" where
  \<comment> \<open>\<open>None\<close> is a null or undefined \<open>data\<close>; an AudioFeatures object has no \<open>length\<close>
      property, so the test \<^verbatim>\<open>data.length === 0\<close> is false on it\<close>
  "autoval nelderMead data tpi target_speed v2above opt =
     (case data of
        None \<Rightarrow> (0, 0)
      | Some d \<Rightarrow>
          if pitch d = None \<or> pitch d = Some [] \<or> energy d = None \<or> energy d = Some []
          then (0, 0)
          else
            (let pres = (case nelderMead (Some (pdst d tpi)) 100 of
                           None \<Rightarrow> 100
                         | Some x \<Rightarrow> min 200 (max (- 200) x));
                 eres = (case nelderMead (optimizers d pres target_speed v2above opt) 10 of
                           None \<Rightarrow> 10
                         | Some x \<Rightarrow> min 100 (max 0 x))
             in (pres, eres)))"





section \<open>The synthesizer on a store of objects and arrays\<close>

text \<open>
  To follow what a call writes, objects and arrays live in a store: an address is an index,
  an allocation appends. A property holds a number or the address of an array of numbers.
  The arrays of actions built by the resolvers and the barrier are local to the call and
  stay values.
\<close>

datatype val = VNum real | VArr nat

type_synonym obj = "(string \<times> val) list"

record store =
  objs :: "obj list"
  arrs :: "real list list"

definition get_prop :: "obj \<Rightarrow> string \<Rightarrow> val option" where
  \<comment> \<open>\<open>None\<close> is \<^verbatim>\<open>undefined\<close>\<close>
  "get_prop ob k = map_of ob k"

fun put_prop :: "string \<Rightarrow> val \<Rightarrow> obj \<Rightarrow> obj" where
  "put_prop k v [] = [(k, v)]"
| "put_prop k v ((k', v') # ps) =
     (if k' = k then (k, v) # ps else (k', v') # put_prop k v ps)"

definition falsy :: "val option \<Rightarrow> bool" where
  \<comment> \<open>the test \<^verbatim>\<open>!x\<close>\<close>
  "falsy v = (case v of None \<Rightarrow> True | Some (VNum x) \<Rightarrow> x = 0 | Some (VArr a) \<Rightarrow> False)"

definition new_obj :: "obj \<Rightarrow> store \<Rightarrow> nat \<times> store" where
  "new_obj ob st = (length (objs st), st\<lparr>objs := objs st @ [ob]\<rparr>)"

definition new_arr :: "real list \<Rightarrow> store \<Rightarrow> nat \<times> store" where
  "new_arr xs st = (length (arrs st), st\<lparr>arrs := arrs st @ [xs]\<rparr>)"

definition set_prop :: "nat \<Rightarrow> string \<Rightarrow> val \<Rightarrow> store \<Rightarrow> store" where
  \<comment> \<open>the assignment \<^verbatim>\<open>o.k = v\<close>\<close>
  "set_prop r k v st = st\<lparr>objs := (objs st)[r := put_prop k v (objs st ! r)]\<rparr>"

definition normalize_st :: "val option \<Rightarrow> store \<Rightarrow> nat option \<times> store" where
  \<comment> \<open>\<open>normalize_data\<close> on a property value: the result is a new array in each returning branch;
      spreading a non-zero number throws (\<open>None\<close>)\<close>
  "normalize_st v st =
     (case v of
        Some (VArr a) \<Rightarrow> (let (r, st') = new_arr (normalize_data (arrs st ! a)) st in (Some r, st'))
      | Some (VNum x) \<Rightarrow>
          if x = 0 then (let (r, st') = new_arr [] st in (Some r, st')) else (None, st)
      | None \<Rightarrow> (let (r, st') = new_arr [] st in (Some r, st')))"

definition create_actions_barrier_st :: "nat \<Rightarrow> real \<Rightarrow> real \<Rightarrow> store \<Rightarrow> action list option" where
  \<comment> \<open>the barrier reads three properties and the arrays behind them and writes nothing; a
      number in the place of an array has no length, \<open>num_frames\<close> is then \<^verbatim>\<open>NaN\<close> and the
      loop does not run\<close>
  "create_actions_barrier_st data start_time overflow st =
     (let ob = objs st ! data;
          e = get_prop ob ''energy_to_pos'';
          b = get_prop ob ''beats'';
          f = get_prop ob ''offsets''
      in if falsy e \<or> falsy b \<or> falsy f then Some []
         else
           (case (e, b, f) of
              (Some (VArr ea), Some (VArr ba), Some (VArr fa)) \<Rightarrow>
                map_option actions
                  (barrier_loop overflow
                     (barrier_frames (arrs st ! ea) (arrs st ! ba) (arrs st ! fa))
                     (barrier_init start_time))
            | _ \<Rightarrow> Some []))"

definition create_actions_st ::
  "nat \<Rightarrow> real \<Rightarrow> real \<Rightarrow> real \<Rightarrow> real \<Rightarrow> real \<Rightarrow> store \<Rightarrow> action list option \<times> store" where
  \<comment> \<open>\<open>create_actions\<close> on the object at address \<open>data\<close>: the result (\<open>None\<close>: an exception)
      and the store after the call\<close>
  "create_actions_st data energy_multiplier pitch_range overflow amplitude_centering center_offset st =
     (let ob = objs st ! data
      in if falsy (get_prop ob ''pitch'') \<or> falsy (get_prop ob ''energy'') then (Some [], st)
         else
           (let (processedData, st1) = new_obj ob st
            in case normalize_st (get_prop ob ''pitch'') st1 of
                 (None, st2) \<Rightarrow> (None, st2)
               | (Some normalized_pitch, st2) \<Rightarrow>
                   (case normalize_st (get_prop ob ''energy'') st2 of
                      (None, st3) \<Rightarrow> (None, st3)
                    | (Some normalized_energy, st3) \<Rightarrow>
                        (let (sliced, st4) =
                               new_arr (take (length (arrs st3 ! normalized_energy))
                                          (arrs st3 ! normalized_pitch)) st3;
                             pitch_bias = (100 - pitch_range) / 2;
                             (offs, st5) =
                               new_arr (map (\<lambda>i. arrs st4 ! sliced ! i * pitch_range + pitch_bias
                                                  + amplitude_centering * arrs st4 ! normalized_energy ! i
                                                  + center_offset)
                                            [0..<length (arrs st4 ! sliced)]) st4;
                             st6 = set_prop processedData ''offsets'' (VArr offs) st5;
                             (e2p, st7) =
                               new_arr (map (\<lambda>e. e * energy_multiplier * 50)
                                            (arrs st6 ! normalized_energy)) st6;
                             st8 = set_prop processedData ''energy_to_pos'' (VArr e2p) st7
                         in (create_actions_barrier_st processedData overflow 0 st8, st8)))))"

definition arr_prop :: "store \<Rightarrow> obj \<Rightarrow> string \<Rightarrow> real list option" where
  \<comment> \<open>the array behind a property, for the reading of an object as audio features\<close>
  "arr_prop st ob k = (case get_prop ob k of Some (VArr a) \<Rightarrow> Some (arrs st ! a) | _ \<Rightarrow> None)"

definition features_of :: "store \<Rightarrow> nat \<Rightarrow> audio_features" where
  "features_of st r =
     (let ob = objs st ! r
      in \<lparr>data_at = (case get_prop ob ''at'' of Some (VNum x) \<Rightarrow> x | _ \<Rightarrow> 0),
          beats = arr_prop st ob ''beats'',
          pitch = arr_prop st ob ''pitch'',
          energy = arr_prop st ob ''energy''\<rparr>)"

definition array_or_absent :: "store \<Rightarrow> val option \<Rightarrow> bool" where
  "array_or_absent st v =
     (case v of None \<Rightarrow> True | Some (VArr a) \<Rightarrow> a < length (arrs st) | Some (VNum x) \<Rightarrow> False)"

definition is_features :: "store \<Rightarrow> nat \<Rightarrow> bool" where
  \<comment> \<open>the object at \<open>r\<close> exists and its three array properties are arrays of the store or absent\<close>
  "is_features st r =
     (r < length (objs st)
      \<and> array_or_absent st (get_prop (objs st ! r) ''beats'')
      \<and> array_or_absent st (get_prop (objs st ! r) ''pitch'')
      \<and> array_or_absent st (get_prop (objs st ! r) ''energy''))"

definition example_store :: store where
  "example_store =
     \<lparr>objs = [[(''at'', VNum 3), (''beats'', VArr 0), (''pitch'', VArr 1), (''energy'', VArr 1)]],
      arrs = [[1, 2], [0, 1]]\<rparr>"

section \<open>Properties and example inputs\<close>

definition at_nondecreasing :: "action list \<Rightarrow> bool" where
  "at_nondecreasing acts = sorted (map at' acts)"

definition two_segments :: audio_features where
  "two_segments = \<lparr>data_at = 3, beats = Some [1, 2], pitch = Some [0, 1], energy = Some [0, 1]\<rparr>"

definition one_segment :: "real \<Rightarrow> audio_features" where
  "one_segment beat = \<lparr>data_at = 5, beats = Some [beat], pitch = Some [1], energy = Some [1]\<rparr>"

section \<open>Evaluation rules\<close>

lemmas synth_defs =
  create_actions_def process_data_def normalize_data_def Math_min_def Math_max_def create_offsets_def
  create_actions_barrier_def barrier_frames_def barrier_init_def barrier_step_def peaks_def
  Math_floor_def default_peak_def audio_features.extend_def create_peak_bounce_def
  create_peak_fold_def emit_def int_at_def Math_round_def Let_def

lemma js_min_Fin: "js_min (Fin a) (Fin b) = Fin (min a b)"
  by (simp add: js_min_def min_def)

lemma js_max_Fin: "js_max (Fin a) (Fin b) = Fin (max a b)"
  by (simp add: js_max_def max_def)

section \<open>The overflow mode of a synthesis call\<close>

text \<open>
  C1. The claim: a synthesis call resolves out-of-range targets with the policy its
  overflowMode argument names, so that mode 1 gives the Bounce actions and mode 2 the Fold
  actions. The code: \<open>create_actions\<close> hands its overflow argument to the barrier as the
  start time, and the barrier runs with its default policy 0. On the two-segment input
  below (targets 300 and -100 in the second segment) the calls with mode 1 and mode 2
  return the clamped positions 0, 0, 100, 0 of Crop, with the first timestamp moved by the
  mode number; the barrier itself, given the mode in its own parameter, returns the seven
  Bounce actions and the seven Fold actions.
\<close>

theorem create_actions_overflow_mode_unused:
  "create_actions two_segments 4 100 1 0 0 =
     Some [\<lparr>at' = 1, pos = 0\<rparr>, \<lparr>at' = 1, pos = 0\<rparr>, \<lparr>at' = 3 / 2, pos = 100\<rparr>,
           \<lparr>at' = 2, pos = 0\<rparr>]
   \<and> create_actions two_segments 4 100 2 0 0 =
     Some [\<lparr>at' = 3 / 2, pos = 0\<rparr>, \<lparr>at' = 1, pos = 0\<rparr>, \<lparr>at' = 3 / 2, pos = 100\<rparr>,
           \<lparr>at' = 2, pos = 0\<rparr>]
   \<and> create_actions_barrier (process_data two_segments [0, 1] [0, 1] 4 100 0 0) 0 1 =
     Some [\<lparr>at' = 1 / 2, pos = 0\<rparr>, \<lparr>at' = 1, pos = 0\<rparr>, \<lparr>at' = 7 / 6, pos = 100\<rparr>,
           \<lparr>at' = 3 / 2, pos = - 100\<rparr>, \<lparr>at' = 7 / 4, pos = 100\<rparr>,
           \<lparr>at' = 15 / 8, pos = 0\<rparr>, \<lparr>at' = 2, pos = 100\<rparr>]
   \<and> create_actions_barrier (process_data two_segments [0, 1] [0, 1] 4 100 0 0) 0 2 =
     Some [\<lparr>at' = 1 / 2, pos = 0\<rparr>, \<lparr>at' = 1, pos = 0\<rparr>, \<lparr>at' = 5 / 4, pos = 150\<rparr>,
           \<lparr>at' = 3 / 2, pos = 0\<rparr>, \<lparr>at' = 7 / 4, pos = 100\<rparr>,
           \<lparr>at' = 7 / 4, pos = 100\<rparr>, \<lparr>at' = 2, pos = 300\<rparr>]"
  by (simp add: two_segments_def synth_defs)

section \<open>Order of the timestamps\<close>

text \<open>
  With the policy 0 every iteration appends the midpoint action and the beat action, so the
  timestamps ascend as long as the start time is not after the first beat and the beats
  ascend. A synthesis call starts at its overflow argument.
\<close>

lemma barrier_step_crop:
  "barrier_step 0 (u, a, off) s =
     Some \<lparr>last_at = a, last_pos = u * (- 1) + off,
           actions = (actions s @ default_peak (u + off) ((a + last_at s) / 2)) @ default_peak (u * (- 1) + off) a\<rparr>"
  by (simp add: barrier_step_def peaks_def Math_floor_def Let_def)

lemma barrier_loop_crop_sorted:
  "sorted (map at' (actions s)) \<Longrightarrow> \<forall>x\<in>set (actions s). at' x \<le> last_at s \<Longrightarrow>
   sorted (last_at s # map (\<lambda>f. fst (snd f)) frames) \<Longrightarrow>
   \<exists>s'. barrier_loop 0 frames s = Some s' \<and> sorted (map at' (actions s'))"
proof (induction frames arbitrary: s)
  case Nil
  then show ?case by simp
next
  case (Cons f frames)
  obtain u a off where f: "f = (u, a, off)" by (cases f) auto
  let ?s1 = "\<lparr>last_at = a, last_pos = u * (- 1) + off,
           actions = (actions s @ default_peak (u + off) ((a + last_at s) / 2)) @ default_peak (u * (- 1) + off) a\<rparr>"
  from Cons.prems(3) have la: "last_at s \<le> a" and rest: "sorted (a # map (\<lambda>f. fst (snd f)) frames)"
    by (simp_all add: f)
  have 1: "sorted (map at' (actions ?s1))"
    using Cons.prems(1,2) la by (auto simp: default_peak_def sorted_append)
  have 2: "\<forall>x\<in>set (actions ?s1). at' x \<le> last_at ?s1"
    using Cons.prems(2) la by (auto simp: default_peak_def)
  have 3: "sorted (last_at ?s1 # map (\<lambda>f. fst (snd f)) frames)"
    using rest by simp
  from Cons.IH [OF 1 2 3] show ?case
    by (simp add: f barrier_step_crop)
qed

lemma barrier_frames_beats:
  "map (\<lambda>f. fst (snd f)) (barrier_frames e2p bs offs) = take (min (length e2p) (length offs)) bs"
  by (auto simp: barrier_frames_def Let_def list_eq_iff_nth_eq)

lemma create_actions_crop_sorted:
  assumes "beats d = Some bs" "sorted (ov # bs)"
  shows "\<exists>acts. create_actions d em pr ov ac co = Some acts \<and> at_nondecreasing acts"
proof (cases "\<exists>p e. pitch d = Some p \<and> energy d = Some e")
  case False
  then show ?thesis
    by (auto simp: create_actions_def at_nondecreasing_def split: option.splits)
next
  case True
  then obtain p e where pe: "pitch d = Some p" "energy d = Some e" by auto
  let ?e2p = "map (\<lambda>e. e * em * 50) (normalize_data e)"
  let ?offs = "create_offsets (normalize_data p) (normalize_data e) pr ac co"
  have ca: "create_actions d em pr ov ac co =
      map_option actions (barrier_loop 0 (barrier_frames ?e2p bs ?offs) (barrier_init ov))"
    by (simp add: create_actions_def pe assms(1) create_actions_barrier_def process_data_def
        audio_features.extend_def Let_def)
  have "sorted (ov # take (min (length ?e2p) (length ?offs)) bs)"
    using assms(2) by (auto dest: in_set_takeD intro: sorted_wrt_take)
  then have "sorted (last_at (barrier_init ov) # map (\<lambda>f. fst (snd f)) (barrier_frames ?e2p bs ?offs))"
    by (simp only: barrier_frames_beats) (simp add: barrier_init_def)
  moreover have "sorted (map at' (actions (barrier_init ov)))"
    "\<forall>x\<in>set (actions (barrier_init ov)). at' x \<le> last_at (barrier_init ov)"
    by (simp_all add: barrier_init_def)
  ultimately obtain s' where "barrier_loop 0 (barrier_frames ?e2p bs ?offs) (barrier_init ov) = Some s'"
    "sorted (map at' (actions s'))"
    using barrier_loop_crop_sorted by blast
  then show ?thesis
    by (simp add: ca at_nondecreasing_def)
qed



text \<open>
  C2. The claim: the actions of a synthesis call have non-decreasing timestamps for every
  overflow mode. The code: with overflowMode 2 and a single beat at 1 second, the call
  starts its accumulator at time 2 (the mode number), emits the up action at the midpoint
  3/2 and then the down action at the beat time 1, so the timestamps decrease.
\<close>

theorem create_actions_at_decreasing_mode_2:
  "create_actions (one_segment 1) 1 100 2 0 0 =
     Some [\<lparr>at' = 3 / 2, pos = 75\<rparr>, \<lparr>at' = 1, pos = 25\<rparr>]
   \<and> \<not> at_nondecreasing [\<lparr>at' = 3 / 2, pos = 75\<rparr>, \<lparr>at' = 1, pos = 25\<rparr>]"
  by (simp add: one_segment_def at_nondecreasing_def synth_defs)

section \<open>The initial accumulator\<close>

text \<open>
  C3. The claim: the segment fold of a synthesis call starts from (lastPos, lastAt) =
  (50, 0) whatever the overflow mode. The code: the barrier starts from
  (50, start_time), and \<open>create_actions\<close> passes its overflow argument as start_time. With
  overflowMode 1 and one beat at 4 seconds the fold starts from (50, 1) and the first
  action is at 5/2, not at 2.
\<close>

theorem create_actions_initial_accumulator_mode_1:
  "create_actions (one_segment 4) 1 100 1 0 0 =
     map_option actions
       (barrier_loop 0 [(25, 4, 50)] \<lparr>last_at = 1, last_pos = 50, actions = []\<rparr>)
   \<and> create_actions (one_segment 4) 1 100 1 0 0 =
     Some [\<lparr>at' = 5 / 2, pos = 75\<rparr>, \<lparr>at' = 4, pos = 25\<rparr>]"
  by (simp add: one_segment_def synth_defs)

section \<open>The Crop resolver\<close>

text \<open>
  C4. The claim: Crop emits exactly one action whose position is round(clamp(pos, 0, 100)),
  an integer. The code: \<open>default_peak\<close> emits one action with the clamped position and does
  not round it, unlike the bounce and fold resolvers; the target 50.5 is emitted as 50.5
  where the claim says 51. Through a synthesis call: one segment with energy multiplier
  0.01 gives the positions 50.25 and 49.75.
\<close>

theorem default_peak_not_rounded:
  "default_peak (101 / 2) 1 = [\<lparr>at' = 1, pos = 101 / 2\<rparr>]
   \<and> Math_round (min (max 0 (101 / 2)) 100) = 51
   \<and> default_peak (101 / 2) 1 \<noteq> [\<lparr>at' = 1, pos = Math_round (min (max 0 (101 / 2)) 100)\<rparr>]
   \<and> create_actions (one_segment 1) (1 / 100) 100 0 0 0 =
       Some [\<lparr>at' = 1 / 2, pos = 201 / 4\<rparr>, \<lparr>at' = 1, pos = 199 / 4\<rparr>]"
  by (simp add: one_segment_def synth_defs)

section \<open>The Fold resolver\<close>

text \<open>
  C5, as the claim states it: Fold emits at most 2 actions per call. It fails when the
  previous position and the target are both out of bounds: three actions are emitted.
\<close>

theorem create_peak_fold_three_actions:
  "\<not> length (create_peak_fold (- 10) 1 (- 20) 0) \<le> 2"
  by (simp add: create_peak_fold_def Let_def)

text \<open>
  C5, amended: Fold emits between 1 and 3 actions per call, positions rounded at emission.
  First, when the previous position is out of bounds, one correction action at the mid
  time: lastPos + travel when lastPos is below 0, lastPos - travel when it is above 100.
  Then, when the target is below 0, the pair (lastPos - travel at the mid time, lastPos at
  the target time); when it is above 100, the pair (lastPos + travel at the mid time,
  lastPos at the target time); otherwise the single pass-through action (pos at the target
  time). So the count is 0 or 1 for the correction plus 2 or 1 for the target, and the
  result is the single pass-through action when both are in bounds.
\<close>

theorem create_peak_fold_actions:
  "create_peak_fold p a lp la =
     (if lp < 0 then [\<lparr>at' = (la + a) / 2, pos = Math_round (lp + \<bar>lp - p\<bar> / 2)\<rparr>]
      else if 100 < lp then [\<lparr>at' = (la + a) / 2, pos = Math_round (lp - \<bar>lp - p\<bar> / 2)\<rparr>]
      else [])
     @ (if p < 0 then [\<lparr>at' = (la + a) / 2, pos = Math_round (lp - \<bar>lp - p\<bar> / 2)\<rparr>,
                        \<lparr>at' = a, pos = Math_round lp\<rparr>]
        else if 100 < p then [\<lparr>at' = (la + a) / 2, pos = Math_round (lp + \<bar>lp - p\<bar> / 2)\<rparr>,
                              \<lparr>at' = a, pos = Math_round lp\<rparr>]
        else [\<lparr>at' = a, pos = Math_round p\<rparr>])
   \<and> length (create_peak_fold p a lp la) =
       (if lp < 0 \<or> 100 < lp then 1 else 0) + (if p < 0 \<or> 100 < p then 2 else 1)
   \<and> 1 \<le> length (create_peak_fold p a lp la)
   \<and> length (create_peak_fold p a lp la) \<le> 3
   \<and> (0 \<le> lp \<and> lp \<le> 100 \<and> 0 \<le> p \<and> p \<le> 100 \<longrightarrow>
        create_peak_fold p a lp la = [\<lparr>at' = a, pos = Math_round p\<rparr>])"
  by (simp add: create_peak_fold_def emit_def Let_def)

theorem create_peak_fold_actions_witness:
  "create_peak_fold (- 10) 1 (- 20) 0 =
     [\<lparr>at' = 1 / 2, pos = - 15\<rparr>, \<lparr>at' = 1 / 2, pos = - 25\<rparr>, \<lparr>at' = 1, pos = - 20\<rparr>]
   \<and> create_peak_fold 50 1 (- 20) 0 = [\<lparr>at' = 1 / 2, pos = 15\<rparr>, \<lparr>at' = 1, pos = 50\<rparr>]
   \<and> (0::real) \<le> 20 \<and> (20::real) \<le> 100 \<and> (0::real) \<le> 30 \<and> (30::real) \<le> 100
   \<and> create_peak_fold 30 1 20 0 = [\<lparr>at' = 1, pos = 30\<rparr>]"
  using create_peak_fold_actions [of "- 10" 1 "- 20" 0] create_peak_fold_actions [of 50 1 "- 20" 0]
    create_peak_fold_actions [of 30 1 20 0]
  by (simp add: Math_round_def)

section \<open>Segmentation\<close>

declare splits_loop.simps [simp del]

lemma beat_crossings_no_beats: "beat_crossings fs [] k = []"
  by (cases fs) simp_all

lemma splits_loop_crossings:
  "splits_loop frames bts k l acc =
     (acc @ map int (if l > 0 then beat_crossings (drop k frames) (drop l bts) k
                     else tl (beat_crossings (drop k frames) (drop l bts) k)),
      l + length (beat_crossings (drop k frames) (drop l bts) k))"
proof (induction frames bts k l acc rule: splits_loop.induct)
  case (1 frames bts k l acc)
  show ?case
  proof (cases "k < length frames")
    case False
    then show ?thesis by (simp add: splits_loop.simps [of frames bts k l acc])
  next
    case kf: True
    then have dk: "drop k frames = frames ! k # drop (Suc k) frames"
      by (simp add: Cons_nth_drop_Suc)
    show ?thesis
    proof (cases "l \<ge> length bts")
      case True
      then have bc: "beat_crossings (drop k frames) (drop l bts) k = []"
        by (simp add: beat_crossings_no_beats)
      have "splits_loop frames bts k l acc = (acc, l)"
        using kf True by (simp add: splits_loop.simps [of frames bts k l acc])
      then show ?thesis
        unfolding bc by simp
    next
      case False
      then have dl: "drop l bts = bts ! l # drop (Suc l) bts"
        by (simp add: Cons_nth_drop_Suc)
      show ?thesis
      proof (cases "frames ! k > bts ! l")
        case True
        have bc: "beat_crossings (drop k frames) (drop l bts) k =
            k # beat_crossings (drop (Suc k) frames) (drop (Suc l) bts) (Suc k)"
          unfolding dk dl using True by simp
        have step: "splits_loop frames bts k l acc =
            splits_loop frames bts (k + 1) (l + 1) (if l > 0 then acc @ [int k] else acc)"
          using kf False True by (simp add: splits_loop.simps [of frames bts k l acc])
        show ?thesis
          unfolding step bc using kf False True "1.IH"(1) by simp
      next
        case nb: False
        have "beat_crossings (frames ! k # drop (Suc k) frames) (bts ! l # drop (Suc l) bts) k =
            beat_crossings (drop (Suc k) frames) (bts ! l # drop (Suc l) bts) (Suc k)"
          using nb by simp
        then have bc: "beat_crossings (drop k frames) (drop l bts) k =
            beat_crossings (drop (Suc k) frames) (drop l bts) (Suc k)"
          by (simp only: dk [symmetric] dl [symmetric])
        have step: "splits_loop frames bts k l acc = splits_loop frames bts (k + 1) l acc"
          using kf False nb by (simp add: splits_loop.simps [of frames bts k l acc])
        show ?thesis
          unfolding step bc using kf False nb "1.IH"(2) by simp
      qed
    qed
  qed
qed

lemma compute_splits_crossings:
  "compute_splits frames bts = [0] @ map int (tl (beat_crossings frames bts 0)) @ [- 1]"
  by (simp add: compute_splits_def splits_loop_crossings)

lemma consumed_beats_crossings:
  "consumed_beats frames bts = length (beat_crossings frames bts 0)"
  by (simp add: consumed_beats_def splits_loop_crossings)

lemma segment_bounds_last:
  assumes "s \<noteq> []"
  shows "segment_bounds (s @ [- 1]) n \<noteq> [] \<and> snd (last (segment_bounds (s @ [- 1]) n)) = int n"
proof -
  from assms have "1 \<le> length s" by (cases s) simp_all
  then have "[1..<length (s @ [- 1 :: int])] = [1..<length s] @ [length s]"
    by simp
  then show ?thesis
    by (simp add: segment_bounds_def)
qed

text \<open>
  C6, as the claim states it: a boundary is opened for each consumed beat, the first
  included. It fails on four frames at 0, 1, 2, 3 seconds and beats at 0.5 and 1.5 seconds:
  both beats are consumed (at frames 1 and 2), and the only boundary opened is frame 2.
\<close>

theorem first_beat_opens_no_boundary:
  "consumed_beats [0, 1, 2, 3] [1 / 2, 3 / 2] = 2
   \<and> beat_crossings [0, 1, 2, 3] [1 / 2, 3 / 2] 0 = [1, 2]
   \<and> opened_boundaries [0, 1, 2, 3] [1 / 2, 3 / 2] = [2]
   \<and> length (opened_boundaries [0, 1, 2, 3] [1 / 2, 3 / 2])
       \<noteq> consumed_beats [0, 1, 2, 3] [1 / 2, 3 / 2]"
  by (simp add: consumed_beats_def opened_boundaries_def compute_splits_def
        splits_loop.simps [of _ _ _ _ "[0]"] splits_loop.simps [of _ _ _ _ "[0, 2]"])

text \<open>
  C6, amended: a boundary is opened each time a frame-time exceeds the next unconsumed
  beat-time, except for the first beat, which is consumed without opening a boundary. The
  boundaries opened in the loop are the frame indices of the crossings after the first one,
  so their number is the number of consumed beats minus one (zero when no beat is
  consumed), and the last segment ends at the length of the truncated arrays.
\<close>

theorem segmentation_boundaries:
  "opened_boundaries frames bts = map int (tl (beat_crossings frames bts 0))
   \<and> consumed_beats frames bts = length (beat_crossings frames bts 0)
   \<and> length (opened_boundaries frames bts) = consumed_beats frames bts - 1
   \<and> compute_splits frames bts = [0] @ opened_boundaries frames bts @ [- 1]
   \<and> segment_bounds (compute_splits frames bts) n \<noteq> []
   \<and> fst (hd (segment_bounds (compute_splits frames bts) n)) = 0
   \<and> snd (last (segment_bounds (compute_splits frames bts) n)) = int n"
proof -
  let ?cs = "map int (tl (beat_crossings frames bts 0))"
  have cs: "compute_splits frames bts = (0 # ?cs) @ [- 1]"
    by (simp add: compute_splits_crossings)
  have ob: "opened_boundaries frames bts = ?cs"
    by (simp add: opened_boundaries_def compute_splits_crossings butlast_append)
  have lst: "segment_bounds ((0 # ?cs) @ [- 1]) n \<noteq> []
      \<and> snd (last (segment_bounds ((0 # ?cs) @ [- 1]) n)) = int n"
    by (rule segment_bounds_last) simp
  have ne: "[1..<length ((0 # ?cs) @ [- 1])] \<noteq> []"
    by simp
  have "hd [1..<length ((0 # ?cs) @ [- 1])] = 1"
    by (rule hd_upt) simp
  then have hd0: "fst (hd (segment_bounds ((0 # ?cs) @ [- 1]) n)) = 0"
    unfolding segment_bounds_def hd_map [OF ne] by simp
  show ?thesis
    using lst hd0 by (simp add: ob cs consumed_beats_crossings)
qed

section \<open>Auto-tuning\<close>


text \<open>
  The two catch blocks: when both arrays are non-empty and the minimiser throws in both
  stages, the result is (100, 10).
\<close>

lemma autoval_optimizer_failure:
  "pitch d = Some (p # ps) \<Longrightarrow> energy d = Some (e # es) \<Longrightarrow>
   nelderMead (Some (pdst d tpi)) 100 = None \<Longrightarrow>
   nelderMead (optimizers d 100 target_speed v2above opt) 10 = None \<Longrightarrow>
   autoval nelderMead (Some d) tpi target_speed v2above opt = (100, 10)"
  by (simp add: autoval_def)















section \<open>Speed\<close>

lemma overflow_bound_pos: "0 < overflow_bound"
  by (simp add: overflow_bound_def)

lemma js_fin_cases: "js_fin x = Fin x \<or> js_fin x = Infinity \<or> js_fin x = NegInfinity"
  by (simp add: js_fin_def)

lemma js_fin_not_NaN: "js_fin x \<noteq> NaN"
  by (simp add: js_fin_def)

lemma js_fin_zero_iff: "js_fin x = Fin 0 \<longleftrightarrow> x = 0"
  using overflow_bound_pos by (auto simp: js_fin_def)

lemma js_sub_Fin: "js_sub (Fin a) (Fin b) = js_fin (a - b)"
  by (simp add: js_sub_def)

lemma js_fin_inf_iff: "js_fin x = Infinity \<or> js_fin x = NegInfinity \<longleftrightarrow> overflows x"
  using overflow_bound_pos by (auto simp: js_fin_def overflows_def)

lemma clamp_unit:
  "x \<noteq> NaN \<Longrightarrow> \<exists>r. js_max (Fin 0) (js_min x (Fin 1)) = Fin r \<and> 0 \<le> r \<and> r \<le> 1"
  by (cases x) (auto simp: js_max_def js_min_def)

lemma js_div_pos_not_NaN: "0 < s \<Longrightarrow> v \<noteq> NaN \<Longrightarrow> js_div v (Fin s) \<noteq> NaN"
  by (cases v) (auto simp: js_fin_not_NaN)

lemma js_div_abs_not_NaN:
  assumes "dt \<noteq> Fin 0" "dt \<noteq> NaN" "dp \<noteq> NaN"
    and "\<not> ((dp = Infinity \<or> dp = NegInfinity) \<and> (dt = Infinity \<or> dt = NegInfinity))"
  shows "js_div (js_abs dp) dt \<noteq> NaN"
  using assms by (cases dp; cases dt) (auto simp: js_fin_not_NaN)

lemma u_speed_not_NaN:
  assumes "0 < smax" "\<not> (overflows (pos B - pos A) \<and> overflows (at' B - at' A))"
  shows "u_speed A B smax \<noteq> NaN"
proof (cases "js_sub (Fin (at' B)) (Fin (at' A)) = Fin 0")
  case True
  then show ?thesis by (simp add: u_speed_def)
next
  case False
  let ?dp = "js_fin (pos B - pos A)" and ?dt = "js_fin (at' B - at' A)"
  have "js_div (js_abs ?dp) ?dt \<noteq> NaN"
  proof (rule js_div_abs_not_NaN)
    show "?dt \<noteq> Fin 0" using False by (simp add: js_sub_Fin)
    show "?dt \<noteq> NaN" "?dp \<noteq> NaN" by (rule js_fin_not_NaN)+
    show "\<not> ((?dp = Infinity \<or> ?dp = NegInfinity) \<and> (?dt = Infinity \<or> ?dt = NegInfinity))"
      using assms(2) by (simp add: js_fin_inf_iff)
  qed
  then have "js_div (js_div (js_abs ?dp) ?dt) (Fin smax) \<noteq> NaN"
    by (rule js_div_pos_not_NaN [OF assms(1)])
  with False show ?thesis
    by (simp add: u_speed_def js_sub_Fin Let_def)
qed

text \<open>
  C8, as the claim states it: for all finite actions A and B and every smax > 0 the speed
  lies in [0,1] and is never NaN. It fails when both differences overflow: for A at time
  and position minus 2 to the 1023 and B at time and position 2 to the 1023 (finite
  doubles), both differences are infinite, the guard on the time difference is not taken,
  the quotient of the two infinities is NaN, and NaN passes through the two clamps.
\<close>

theorem speed_NaN_on_overflow:
  "speed \<lparr>at' = - (2 ^ 1023), pos = - (2 ^ 1023)\<rparr> \<lparr>at' = 2 ^ 1023, pos = 2 ^ 1023\<rparr> 400 = NaN"
  by (simp add: speed_def u_speed_def js_sub_Fin js_fin_def overflow_bound_def js_max_def js_min_def)

text \<open>
  C8, amended: for all finite actions A and B and every smax > 0 such that the differences
  B.pos - A.pos and B.at - A.at do not both overflow, speed A B smax is a finite number
  between 0 and 1; and whenever the two timestamps are equal (in particular for
  speed A A smax) the result is exactly 0.
\<close>

theorem speed_in_unit_interval:
  "0 < smax \<Longrightarrow> \<not> (overflows (pos B - pos A) \<and> overflows (at' B - at' A)) \<Longrightarrow>
     (\<exists>r. speed A B smax = Fin r \<and> 0 \<le> r \<and> r \<le> 1)
     \<and> (at' B = at' A \<longrightarrow> speed A B smax = Fin 0)
     \<and> speed A A smax = Fin 0"
proof (intro conjI impI)
  assume "0 < smax" "\<not> (overflows (pos B - pos A) \<and> overflows (at' B - at' A))"
  then have "u_speed A B smax \<noteq> NaN" by (rule u_speed_not_NaN)
  then show "\<exists>r. speed A B smax = Fin r \<and> 0 \<le> r \<and> r \<le> 1"
    unfolding speed_def by (rule clamp_unit)
next
  assume "at' B = at' A"
  then show "speed A B smax = Fin 0"
    by (simp add: speed_def u_speed_def js_sub_Fin js_fin_zero_iff js_max_def js_min_def)
next
  show "speed A A smax = Fin 0"
    by (simp add: speed_def u_speed_def js_sub_Fin js_fin_zero_iff js_max_def js_min_def)
qed

theorem speed_in_unit_interval_witness:
  "(0::real) < 400
   \<and> \<not> (overflows (pos \<lparr>at' = 1 / 2, pos = 100\<rparr> - pos \<lparr>at' = 0, pos = 0\<rparr>)
        \<and> overflows (at' \<lparr>at' = 1 / 2, pos = 100\<rparr> - at' \<lparr>at' = 0, pos = 0\<rparr>))
   \<and> (\<exists>r. speed \<lparr>at' = 0, pos = 0\<rparr> \<lparr>at' = 1 / 2, pos = 100\<rparr> 400 = Fin r \<and> 0 \<le> r \<and> r \<le> 1)
   \<and> speed \<lparr>at' = 0, pos = 0\<rparr> \<lparr>at' = 0, pos = 0\<rparr> 400 = Fin 0"
proof -
  have h: "(0::real) < 400" by simp
  have o: "\<not> (overflows (pos \<lparr>at' = 1 / 2, pos = 100\<rparr> - pos \<lparr>at' = 0, pos = 0\<rparr>)
        \<and> overflows (at' \<lparr>at' = 1 / 2, pos = 100\<rparr> - at' \<lparr>at' = 0, pos = 0\<rparr>))"
    by (simp add: overflows_def overflow_bound_def)
  show ?thesis
    using h o speed_in_unit_interval [OF h o] by simp
qed

section \<open>Export\<close>


section \<open>What a synthesis call writes\<close>

lemma new_arr_simps:
  "fst (new_arr xs st) = length (arrs st)"
  "objs (snd (new_arr xs st)) = objs st"
  "arrs (snd (new_arr xs st)) = arrs st @ [xs]"
  by (simp_all add: new_arr_def)

lemma new_obj_simps:
  "fst (new_obj ob st) = length (objs st)"
  "objs (snd (new_obj ob st)) = objs st @ [ob]"
  "arrs (snd (new_obj ob st)) = arrs st"
  by (simp_all add: new_obj_def)

lemma set_prop_simps:
  "arrs (set_prop r k v st) = arrs st"
  "objs (set_prop r k v st) = (objs st)[r := put_prop k v (objs st ! r)]"
  by (simp_all add: set_prop_def)

lemma normalize_st_objs: "objs (snd (normalize_st v st)) = objs st"
  by (simp add: normalize_st_def new_arr_def split: option.splits val.splits)

lemma normalize_st_arrs: "\<exists>xs. arrs (snd (normalize_st v st)) = arrs st @ xs"
  by (simp add: normalize_st_def new_arr_def split: option.splits val.splits)

lemma create_actions_st_objs:
  "take (length (objs st)) (objs (snd (create_actions_st r em pr ov ac co st))) = objs st"
  by (simp add: create_actions_st_def Let_def split_def new_arr_simps new_obj_simps set_prop_simps
        normalize_st_objs split: option.splits)

lemma create_actions_st_arrs:
  "take (length (arrs st)) (arrs (snd (create_actions_st r em pr ov ac co st))) = arrs st"
proof -
  let ?ob = "objs st ! r"
  let ?st1 = "snd (new_obj ?ob st)"
  let ?st2 = "snd (normalize_st (get_prop ?ob ''pitch'') ?st1)"
  let ?st3 = "snd (normalize_st (get_prop ?ob ''energy'') ?st2)"
  obtain xs where xs: "arrs ?st2 = arrs st @ xs"
    using normalize_st_arrs [of "get_prop ?ob ''pitch''" ?st1] by (auto simp: new_obj_simps)
  obtain ys where ys: "arrs ?st3 = arrs st @ xs @ ys"
    using normalize_st_arrs [of "get_prop ?ob ''energy''" ?st2] by (auto simp: xs)
  show ?thesis
    by (simp add: create_actions_st_def Let_def split_def new_arr_simps new_obj_simps set_prop_simps
        xs ys split: option.splits)
qed

lemma get_put_prop: "get_prop (put_prop k v ob) k' = (if k' = k then Some v else get_prop ob k')"
  by (induction ob) (auto simp: get_prop_def)

lemma normalize_st_array:
  "fst (normalize_st (Some (VArr a)) st) = Some (length (arrs st))"
  "arrs (snd (normalize_st (Some (VArr a)) st)) = arrs st @ [normalize_data (arrs st ! a)]"
  by (simp_all add: normalize_st_def new_arr_def)

lemma create_offsets_eq: "create_offsets np ne pr ac co =
   map (\<lambda>i. take (length ne) np ! i * pr + (100 - pr) / 2 + ac * ne ! i + co) [0..<length (take (length ne) np)]"
  by (simp add: create_offsets_def Let_def)

lemma create_actions_st_absent:
  assumes "falsy (get_prop (objs st ! r) ''pitch'') \<or> falsy (get_prop (objs st ! r) ''energy'')"
    and "array_or_absent st (get_prop (objs st ! r) ''pitch'')"
    and "array_or_absent st (get_prop (objs st ! r) ''energy'')"
  shows "fst (create_actions_st r em pr ov ac co st) = create_actions (features_of st r) em pr ov ac co"
proof -
  from assms have "get_prop (objs st ! r) ''pitch'' = None \<or> get_prop (objs st ! r) ''energy'' = None"
    by (auto simp: falsy_def array_or_absent_def split: option.splits val.splits)
  then have "pitch (features_of st r) = None \<or> energy (features_of st r) = None"
    by (auto simp: features_of_def arr_prop_def Let_def)
  then have "create_actions (features_of st r) em pr ov ac co = Some []"
    by (auto simp: create_actions_def split: option.splits)
  with assms(1) show ?thesis
    by (simp add: create_actions_st_def)
qed

lemma create_actions_st_present:
  assumes r: "r < length (objs st)"
    and pa: "get_prop (objs st ! r) ''pitch'' = Some (VArr pa)" "pa < length (arrs st)"
    and ea: "get_prop (objs st ! r) ''energy'' = Some (VArr ea)" "ea < length (arrs st)"
    and b: "array_or_absent st (get_prop (objs st ! r) ''beats'')"
  shows "fst (create_actions_st r em pr ov ac co st) = create_actions (features_of st r) em pr ov ac co"
proof -
  let ?ob = "objs st ! r"
  let ?P = "arrs st ! pa" and ?E = "arrs st ! ea"
  have f: "pitch (features_of st r) = Some ?P" "energy (features_of st r) = Some ?E"
    "beats (features_of st r) = arr_prop st ?ob ''beats''"
    using pa ea by (simp_all add: features_of_def arr_prop_def Let_def)
  have nf: "\<not> (falsy (get_prop ?ob ''pitch'') \<or> falsy (get_prop ?ob ''energy''))"
    using pa ea by (simp add: falsy_def)
  have pure: "create_actions (features_of st r) em pr ov ac co =
      (case arr_prop st ?ob ''beats'' of
         None \<Rightarrow> Some []
       | Some bs \<Rightarrow>
           map_option actions
             (barrier_loop 0
                (barrier_frames (map (\<lambda>e. e * em * 50) (normalize_data ?E)) bs
                   (create_offsets (normalize_data ?P) (normalize_data ?E) pr ac co))
                (barrier_init ov)))"
    by (simp add: create_actions_def f create_actions_barrier_def process_data_def
        audio_features.extend_def Let_def split: option.splits)
  have st: "fst (create_actions_st r em pr ov ac co st) =
      (case arr_prop st ?ob ''beats'' of
         None \<Rightarrow> Some []
       | Some bs \<Rightarrow>
           map_option actions
             (barrier_loop 0
                (barrier_frames (map (\<lambda>e. e * em * 50) (normalize_data ?E)) bs
                   (create_offsets (normalize_data ?P) (normalize_data ?E) pr ac co))
                (barrier_init ov)))"
    using b nf pa ea
    by (auto simp add: create_actions_st_def Let_def split_def new_arr_simps new_obj_simps set_prop_simps
        normalize_st_array normalize_st_objs nth_append get_put_prop
        create_actions_barrier_st_def create_offsets_eq falsy_def arr_prop_def array_or_absent_def
        split: option.splits val.splits)
  show ?thesis by (simp only: pure st)
qed

lemma create_actions_st_refines:
  assumes "is_features st r"
  shows "fst (create_actions_st r em pr ov ac co st) = create_actions (features_of st r) em pr ov ac co"
proof (cases "falsy (get_prop (objs st ! r) ''pitch'') \<or> falsy (get_prop (objs st ! r) ''energy'')")
  case True
  with assms show ?thesis
    by (intro create_actions_st_absent) (simp_all add: is_features_def)
next
  case False
  with assms obtain pa ea
    where p: "get_prop (objs st ! r) ''pitch'' = Some (VArr pa)" "pa < length (arrs st)"
      and e: "get_prop (objs st ! r) ''energy'' = Some (VArr ea)" "ea < length (arrs st)"
    by (auto simp: is_features_def array_or_absent_def falsy_def split: option.splits val.splits)
  from assms have r: "r < length (objs st)"
    and b: "array_or_absent st (get_prop (objs st ! r) ''beats'')"
    by (simp_all add: is_features_def)
  show ?thesis
    by (rule create_actions_st_present [OF r p e b])
qed

lemma nth_of_take: "take n xs = ys \<Longrightarrow> i < n \<Longrightarrow> xs ! i = ys ! i"
  by (metis nth_take)

text \<open>
  C10. \<open>create_actions\<close> does not write to its argument. For every store and every
  features object in it, after the call the object has the same properties (the number at
  and the same three array addresses), every array that existed before the call has the
  same contents, so the object reads as the same audio features; the objects and arrays
  the call allocates (the copy that receives offsets and energy_to_pos, the normalized
  arrays) are new. The result of the call is the one of the function on values.
\<close>

theorem create_actions_st_input_unchanged:
  assumes "is_features st r"
  shows "objs (snd (create_actions_st r em pr ov ac co st)) ! r = objs st ! r
    \<and> features_of (snd (create_actions_st r em pr ov ac co st)) r = features_of st r
    \<and> take (length (objs st)) (objs (snd (create_actions_st r em pr ov ac co st))) = objs st
    \<and> take (length (arrs st)) (arrs (snd (create_actions_st r em pr ov ac co st))) = arrs st
    \<and> fst (create_actions_st r em pr ov ac co st) = create_actions (features_of st r) em pr ov ac co"
proof -
  let ?st' = "snd (create_actions_st r em pr ov ac co st)"
  from assms have r: "r < length (objs st)"
    by (simp add: is_features_def)
  have ob: "objs ?st' ! r = objs st ! r"
    by (rule nth_of_take [OF create_actions_st_objs r])
  have ar: "arrs ?st' ! a = arrs st ! a" if "a < length (arrs st)" for a
    by (rule nth_of_take [OF create_actions_st_arrs that])
  have same: "arr_prop ?st' (objs st ! r) k = arr_prop st (objs st ! r) k"
    if "array_or_absent st (get_prop (objs st ! r) k)" for k
    using that by (auto simp: arr_prop_def array_or_absent_def ar split: option.splits val.splits)
  from assms have "features_of ?st' r = features_of st r"
    by (simp add: features_of_def Let_def ob same is_features_def)
  then show ?thesis
    using ob create_actions_st_objs create_actions_st_arrs create_actions_st_refines [OF assms]
    by simp
qed

theorem create_actions_st_input_unchanged_witness:
  "is_features example_store 0
   \<and> objs (snd (create_actions_st 0 4 100 1 0 0 example_store)) ! 0 = objs example_store ! 0
   \<and> features_of (snd (create_actions_st 0 4 100 1 0 0 example_store)) 0 =
       features_of example_store 0
   \<and> take (length (arrs example_store))
         (arrs (snd (create_actions_st 0 4 100 1 0 0 example_store))) = arrs example_store"
proof -
  have h: "is_features example_store 0"
    by (simp add: is_features_def example_store_def array_or_absent_def get_prop_def)
  show ?thesis
    using h create_actions_st_input_unchanged [OF h, of 4 100 1 0 0]
    by simp
qed

end
